theory Spec2Isabelle
  imports Main "HOL-Library.Word"
begin

unbundle bit_operations_syntax

section \<open>Errors and outcomes\<close>

text \<open>
  The sentinel errors of the packages \<open>memory\<close>, \<open>cpu\<close> and \<open>gogb\<close>. Go's \<open>nil\<close> error
  is \<open>None\<close> of \<open>error option\<close>. A run-time panic (an index out of range) is the
  outcome \<open>Panic\<close>; a normal return carries the returned values.
\<close>

datatype error =
    ErrAddressOutOfRange
  | ErrStackOverflow
  | ErrStackUnderflow
  | ErrHeaderLengthInvalid
  | ErrHeaderChecksumInvalid

datatype 'a outcome = Panic | Return 'a

text \<open>
  Go's \<open>int\<close> is taken at its 64-bit width: \<open>go_int\<close> wraps a mathematical integer
  into the two's complement range, as \<open>addr+1\<close> does at the largest \<open>int\<close>.
\<close>

definition go_int :: "int \<Rightarrow> int" where
  "go_int x = (x + 2 ^ 63) mod 2 ^ 64 - 2 ^ 63"

section \<open>memory.go: the RAM\<close>

record RAM =
  data :: "8 word list"

definition NewRAM :: "16 word \<Rightarrow> RAM" where
  "NewRAM sz = \<lparr> data = replicate (unat sz) 0 \<rparr>"

text \<open>Indexing a slice: Go panics when the index is negative or not below the length.\<close>

definition in_bounds :: "'a list \<Rightarrow> int \<Rightarrow> bool" where
  "in_bounds xs i \<longleftrightarrow> 0 \<le> i \<and> i < int (length xs)"

definition GetByte :: "RAM \<Rightarrow> int \<Rightarrow> (8 word \<times> error option) outcome" where
  "GetByte r addr =
     (if addr \<ge> int (length (data r)) then Return (0, Some ErrAddressOutOfRange)
      else if in_bounds (data r) addr then Return (data r ! nat addr, None)
      else Panic)"

definition GetWord :: "RAM \<Rightarrow> int \<Rightarrow> (16 word \<times> error option) outcome" where
  "GetWord r addr =
     (if go_int (addr + 1) \<ge> int (length (data r)) then Return (0, Some ErrAddressOutOfRange)
      else if \<not> in_bounds (data r) addr then Panic
      else if \<not> in_bounds (data r) (go_int (addr + 1)) then Panic
      else Return (push_bit 8 (ucast (data r ! nat addr))
                     OR ucast (data r ! nat (go_int (addr + 1))), None))"

definition SetByte :: "RAM \<Rightarrow> int \<Rightarrow> 8 word \<Rightarrow> RAM \<times> error option outcome" where
  "SetByte r addr val =
     (if addr \<ge> int (length (data r)) then (r, Return (Some ErrAddressOutOfRange))
      else if in_bounds (data r) addr
        then (r\<lparr> data := (data r)[nat addr := val] \<rparr>, Return None)
      else (r, Panic))"

definition SetWord :: "RAM \<Rightarrow> int \<Rightarrow> 16 word \<Rightarrow> RAM \<times> error option outcome" where
  "SetWord r addr val =
     (if go_int (addr + 1) \<ge> int (length (data r)) then (r, Return (Some ErrAddressOutOfRange))
      else if \<not> in_bounds (data r) addr then (r, Panic)
      else
        let r1 = r\<lparr> data := (data r)[nat addr := ucast (drop_bit 8 (val AND 0xFF00))] \<rparr>
        in if \<not> in_bounds (data r1) (go_int (addr + 1)) then (r1, Panic)
           else (r1\<lparr> data := (data r1)[nat (go_int (addr + 1)) := ucast (val AND 0x00FF)] \<rparr>,
                 Return None))"

section \<open>z80.go: the flags register\<close>

type_synonym Z80Flags = "8 word"

definition Set :: "Z80Flags \<Rightarrow> Z80Flags \<Rightarrow> Z80Flags" where
  "Set f flag = f OR flag"

definition Clear :: "Z80Flags \<Rightarrow> Z80Flags \<Rightarrow> Z80Flags" where
  "Clear f flag = f AND NOT flag"

definition SetIf :: "Z80Flags \<Rightarrow> bool \<Rightarrow> Z80Flags \<Rightarrow> Z80Flags" where
  "SetIf f condition flag = (if condition then Set f flag else Clear f flag)"

definition IsSet :: "Z80Flags \<Rightarrow> Z80Flags \<Rightarrow> bool" where
  "IsSet f flag \<longleftrightarrow> f AND flag \<noteq> 0"

definition IsClear :: "Z80Flags \<Rightarrow> Z80Flags \<Rightarrow> bool" where
  "IsClear f flag \<longleftrightarrow> f AND flag = 0"

definition FlagEmpty :: Z80Flags where "FlagEmpty = 0"
definition FlagCarry :: Z80Flags where "FlagCarry = push_bit 4 1"
definition FlagHalfCarry :: Z80Flags where "FlagHalfCarry = push_bit 5 1"
definition FlagAddSub :: Z80Flags where "FlagAddSub = push_bit 6 1"
definition FlagZero :: Z80Flags where "FlagZero = push_bit 7 1"

section \<open>instructions.go: the instruction primitives\<close>

text \<open>
  The pointer arguments (\<open>sp\<close>, \<open>pc\<close>, \<open>left\<close>, \<open>f\<close>) and the memory are passed in and
  returned updated. \<open>int(*sp)\<close> is \<open>uint sp\<close>. The memory argument has the interface type
  \<open>MMU\<close>, whose only implementation in the repository is the RAM: the primitives are
  modelled over it. A panic of the memory operation ends the primitive with \<open>Panic\<close>.
\<close>

definition push :: "16 word \<Rightarrow> 16 word \<Rightarrow> RAM \<Rightarrow> 16 word \<times> RAM \<times> error option outcome" where
  "push val sp mem =
     (if sp \<le> 2 then (sp, mem, Return (Some ErrStackOverflow))
      else let sp' = sp - 2 in (sp', SetWord mem (uint sp') val))"

definition pop :: "16 word \<Rightarrow> RAM \<Rightarrow> 16 word \<times> (16 word \<times> error option) outcome" where
  "pop sp mem =
     (case GetWord mem (uint sp) of
        Panic \<Rightarrow> (sp, Panic)
      | Return (res, err) \<Rightarrow>
          if err = Some ErrAddressOutOfRange then (sp, Return (0, Some ErrStackUnderflow))
          else (sp + 2, Return (res, err)))"

definition add8 :: "8 word \<Rightarrow> 8 word \<Rightarrow> Z80Flags \<Rightarrow> bool \<Rightarrow> 8 word \<times> Z80Flags" where
  "add8 left right f withCarry =
     (let right1 = (if withCarry \<and> IsSet f FlagCarry then right + 1 else right);
          result = uint left + uint right1;
          f1 = SetIf f (result > 0xFF) FlagCarry;
          result1 = result AND 0xFF;
          f2 = Clear f1 FlagAddSub;
          f3 = SetIf f2 (result1 = 0) FlagZero;
          f4 = SetIf f3 ((right1 AND 0x0F) + (left AND 0x0F) > 0x0F) FlagHalfCarry
      in (word_of_int (result1 AND 0xFF), f4))"

definition add16 :: "16 word \<Rightarrow> 16 word \<Rightarrow> Z80Flags \<Rightarrow> 16 word \<times> Z80Flags" where
  "add16 left right f =
     (let result = uint left + uint right;
          f1 = SetIf f (result > 0xFFFF) FlagCarry;
          result1 = result AND 0xFFFF;
          f2 = Clear f1 FlagAddSub;
          f3 = SetIf f2 ((right AND 0xFFF) + (left AND 0xFFF) > 0xFFF) FlagHalfCarry
      in (word_of_int (result1 AND 0xFFFF), f3))"

definition and_instr :: "8 word \<Rightarrow> 8 word \<Rightarrow> Z80Flags \<Rightarrow> 8 word \<times> Z80Flags" where
  "and_instr left right f =
     (let left1 = left AND right;
          f1 = SetIf f (left1 = 0) FlagZero;
          f2 = Clear f1 FlagAddSub;
          f3 = Set f2 FlagHalfCarry;
          f4 = Clear f3 FlagCarry
      in (left1, f4))"

definition bit_instr :: "8 word \<Rightarrow> 8 word \<Rightarrow> Z80Flags \<Rightarrow> Z80Flags" where
  "bit_instr b val f = SetIf f (val AND push_bit (unat b) 1 = 0) FlagZero"

definition call ::
  "16 word \<Rightarrow> 16 word \<Rightarrow> 16 word \<Rightarrow> RAM \<Rightarrow> 16 word \<times> 16 word \<times> RAM \<times> error option outcome" where
  "call addr pc sp mem =
     (case push pc sp mem of
        (sp', mem', Return None) \<Rightarrow> (addr, sp', mem', Return None)
      | (sp', mem', err) \<Rightarrow> (pc, sp', mem', err))"

section \<open>rom.go: the cartridge header\<close>

text \<open>
  A Go string is a sequence of bytes: the string fields are byte lists. \<open>subslice inp lo hi\<close>
  is \<open>inp[lo:hi]\<close>; the parser takes slices and indices only after it has checked that
  the input has exactly \<open>0x50\<close> bytes, and all of them lie below \<open>0x50\<close>.
\<close>

datatype CgbSupport = CgbNotSupported | CgbSupported | CgbRequired

record CartridgeHeader =
  Title :: "8 word list"
  ManufacturerCode :: "8 word list"
  CGBSupport :: CgbSupport
  NewLicenseeCode :: "8 word list"
  SGBSupport :: bool
  Type :: "8 word"
  ROMSize :: int
  RAMSize :: int
  Japanese :: bool
  OldLicenseeCode :: "8 word"
  VersionNumber :: "8 word"
  GlobalChecksum :: "16 word"

definition subslice :: "'a list \<Rightarrow> nat \<Rightarrow> nat \<Rightarrow> 'a list" where
  "subslice xs lo hi = take (hi - lo) (drop lo xs)"

text \<open>\<open>strings.TrimRight(s, "\\x00")\<close>: the trailing NUL bytes are removed.\<close>

definition TrimRight_NUL :: "8 word list \<Rightarrow> 8 word list" where
  "TrimRight_NUL s = rev (dropWhile (\<lambda>b. b = 0) (rev s))"

text \<open>\<open>binary.BigEndian.Uint16\<close> on a two-byte slice.\<close>

definition BigEndian_Uint16 :: "8 word list \<Rightarrow> 16 word" where
  "BigEndian_Uint16 b = ucast (b ! 1) OR push_bit 8 (ucast (b ! 0))"

definition getROMSize :: "8 word \<Rightarrow> int" where
  "getROMSize sz =
     (if sz = 0x00 then 2 * 16
      else if sz = 0x01 then 4 * 16
      else if sz = 0x02 then 8 * 16
      else if sz = 0x03 then 16 * 16
      else if sz = 0x04 then 32 * 16
      else if sz = 0x05 then 128 * 16
      else if sz = 0x06 then 256 * 16
      else if sz = 0x08 then 512 * 16
      else if sz = 0x52 then 72 * 16
      else if sz = 0x53 then 80 * 16
      else if sz = 0x54 then 96 * 16
      else 0)"

definition getRAMSize :: "8 word \<Rightarrow> int" where
  "getRAMSize sz =
     (if sz = 0x01 then 2
      else if sz = 0x02 then 8
      else if sz = 0x03 then 32
      else if sz = 0x04 then 128
      else if sz = 0x05 then 64
      else 0)"

text \<open>
  The checksum loop \<open>for x := 0x34; x <= 0x4C; x++\<close>, with the byte accumulator
  \<open>actualChecksum\<close> wrapping modulo 256.
\<close>

function checksum_loop :: "8 word list \<Rightarrow> nat \<Rightarrow> 8 word \<Rightarrow> 8 word" where
  "checksum_loop inp x actualChecksum =
     (if x \<le> 0x4C then checksum_loop inp (x + 1) (actualChecksum - inp ! x - 1)
      else actualChecksum)"
  by pat_completeness auto
termination
  by (relation "measure (\<lambda>(inp, x, actualChecksum). 0x4D - x)") auto

declare checksum_loop.simps [simp del]

definition ParseHeader ::
  "8 word list \<Rightarrow> CartridgeHeader \<Rightarrow> CartridgeHeader \<times> error option" where
  "ParseHeader inp header =
     (if length inp \<noteq> 0x50 then (header, Some ErrHeaderLengthInvalid)
      else
        let cgbVal = inp ! 0x43;
            header1 = header
              \<lparr> Title := TrimRight_NUL (subslice inp 0x34 0x3F),
                ManufacturerCode := TrimRight_NUL (subslice inp 0x3F 0x42),
                CGBSupport := (if cgbVal = 0x80 then CgbSupported
                               else if cgbVal = 0xC0 then CgbRequired
                               else CgbNotSupported),
                NewLicenseeCode := subslice inp 0x44 0x45,
                SGBSupport := (inp ! 0x46 = 0x03),
                Type := inp ! 0x47,
                ROMSize := getROMSize (inp ! 0x48),
                RAMSize := getRAMSize (inp ! 0x49),
                Japanese := (inp ! 0x4A = 0x00),
                OldLicenseeCode := inp ! 0x4B,
                VersionNumber := inp ! 0x4C,
                GlobalChecksum := BigEndian_Uint16 (subslice inp 0x4E 0x50) \<rparr>;
            headerChecksum = inp ! 0x4D;
            actualChecksum = checksum_loop inp 0x34 0
        in if headerChecksum \<noteq> actualChecksum then (header1, Some ErrHeaderChecksumInvalid)
           else (header1, None))"

text \<open>The zero value of the header structure, as \<open>var header CartridgeHeader\<close> declares it.\<close>

definition zero_CartridgeHeader :: CartridgeHeader where
  "zero_CartridgeHeader =
     \<lparr> Title = [], ManufacturerCode = [], CGBSupport = CgbNotSupported, NewLicenseeCode = [],
       SGBSupport = False, Type = 0, ROMSize = 0, RAMSize = 0, Japanese = False,
       OldLicenseeCode = 0, VersionNumber = 0, GlobalChecksum = 0 \<rparr>"

section \<open>The flags as bits\<close>

text \<open>
  Each named flag is one bit, so the flag operations are read bit by bit: the carry flag is
  bit 4, the half-carry flag bit 5, the add/subtract flag bit 6 and the zero flag bit 7.
\<close>

lemma IsSet_bit:
  "IsSet f FlagCarry = bit f 4" "IsSet f FlagHalfCarry = bit f 5"
  "IsSet f FlagAddSub = bit f 6" "IsSet f FlagZero = bit f 7"
  by (simp_all add: IsSet_def FlagCarry_def FlagHalfCarry_def FlagAddSub_def FlagZero_def
        bit_iff_and_push_bit_not_eq_0)

lemma IsClear_IsSet: "IsClear f g = (\<not> IsSet f g)"
  by (simp add: IsClear_def IsSet_def)

lemma bit_Set:
  "bit (Set f FlagCarry) n = (bit f n \<or> n = 4)"
  "bit (Set f FlagHalfCarry) n = (bit f n \<or> n = 5)"
  "bit (Set f FlagAddSub) n = (bit f n \<or> n = 6)"
  "bit (Set f FlagZero) n = (bit f n \<or> n = 7)"
  unfolding Set_def FlagCarry_def FlagHalfCarry_def FlagAddSub_def FlagZero_def
  by (auto simp only: bit_or_iff bit_push_bit_iff bit_1_iff possible_bit_word) simp_all

lemma bit_Clear:
  "bit (Clear f FlagCarry) n = (bit f n \<and> n \<noteq> 4)"
  "bit (Clear f FlagHalfCarry) n = (bit f n \<and> n \<noteq> 5)"
  "bit (Clear f FlagAddSub) n = (bit f n \<and> n \<noteq> 6)"
  "bit (Clear f FlagZero) n = (bit f n \<and> n \<noteq> 7)"
  unfolding Clear_def FlagCarry_def FlagHalfCarry_def FlagAddSub_def FlagZero_def
  by (auto simp only: bit_and_iff bit_not_iff bit_push_bit_iff bit_1_iff possible_bit_word
        dest: bit_imp_le_length)

lemma bit_SetIf:
  "bit (SetIf f c FlagCarry) n = (if n = 4 then c else bit f n)"
  "bit (SetIf f c FlagHalfCarry) n = (if n = 5 then c else bit f n)"
  "bit (SetIf f c FlagAddSub) n = (if n = 6 then c else bit f n)"
  "bit (SetIf f c FlagZero) n = (if n = 7 then c else bit f n)"
  by (auto simp add: SetIf_def bit_Set bit_Clear)

lemma bit_Flag:
  "bit FlagCarry n = (n = 4)" "bit FlagHalfCarry n = (n = 5)"
  "bit FlagAddSub n = (n = 6)" "bit FlagZero n = (n = 7)" "bit FlagEmpty n = False"
  unfolding FlagCarry_def FlagHalfCarry_def FlagAddSub_def FlagZero_def FlagEmpty_def
  by (auto simp only: bit_push_bit_iff bit_1_iff possible_bit_word bit_0_eq) simp_all

lemmas flag_bits = IsSet_bit IsClear_IsSet bit_Set bit_Clear bit_SetIf bit_Flag

section \<open>Masks and sums\<close>

lemma int_and_FF: "(x::int) AND 0xFF = x mod 2 ^ 8"
proof -
  have "x AND mask 8 = take_bit 8 x" by (simp only: take_bit_eq_mask)
  then show ?thesis by (simp add: mask_eq_exp_minus_1 take_bit_eq_mod)
qed

lemma int_and_FFFF: "(x::int) AND 0xFFFF = x mod 2 ^ 16"
proof -
  have "x AND mask 16 = take_bit 16 x" by (simp only: take_bit_eq_mask)
  then show ?thesis by (simp add: mask_eq_exp_minus_1 take_bit_eq_mod)
qed

lemma uint_and_F: "uint ((x::8 word) AND 0x0F) \<le> 0xF"
proof -
  have "x AND mask 4 = take_bit 4 x" by (simp only: take_bit_eq_mask)
  then have "uint (x AND 0x0F) = take_bit 4 (uint x)"
    by (simp add: mask_eq_exp_minus_1 unsigned_take_bit_eq)
  moreover have "take_bit 4 (uint x) < 2 ^ 4" by (rule take_bit_int_less_exp)
  ultimately show ?thesis by simp
qed

lemma uint_and_FFF: "uint ((x::16 word) AND 0xFFF) \<le> 0xFFF"
proof -
  have "x AND mask 12 = take_bit 12 x" by (simp only: take_bit_eq_mask)
  then have "uint (x AND 0xFFF) = take_bit 12 (uint x)"
    by (simp add: mask_eq_exp_minus_1 unsigned_take_bit_eq)
  moreover have "take_bit 12 (uint x) < 2 ^ 12" by (rule take_bit_int_less_exp)
  ultimately show ?thesis by simp
qed

text \<open>The half-carry tests are made on words; the two masked operands never overflow.\<close>

lemma nibble_sum_gt:
  "((r::8 word) AND 0x0F) + (l AND 0x0F) > 0x0F
     \<longleftrightarrow> uint (l AND 0x0F) + uint (r AND 0x0F) > 0xF"
proof -
  have "uint ((r AND 0x0F) + (l AND 0x0F)) = uint (r AND 0x0F) + uint (l AND 0x0F)"
    using uint_and_F [of r] uint_and_F [of l] by (simp add: uint_word_ariths)
  moreover have "uint (0x0F :: 8 word) = 0xF" by simp
  ultimately show ?thesis unfolding word_less_def by linarith
qed

lemma low12_sum_gt:
  "((r::16 word) AND 0xFFF) + (l AND 0xFFF) > 0xFFF
     \<longleftrightarrow> uint (l AND 0xFFF) + uint (r AND 0xFFF) > 0xFFF"
proof -
  have "uint ((r AND 0xFFF) + (l AND 0xFFF)) = uint (r AND 0xFFF) + uint (l AND 0xFFF)"
    using uint_and_FFF [of r] uint_and_FFF [of l] by (simp add: uint_word_ariths)
  moreover have "uint (0xFFF :: 16 word) = 0xFFF" by simp
  ultimately show ?thesis unfolding word_less_def by linarith
qed

lemma word8_sum_zero: "(l + r1 = (0::8 word)) \<longleftrightarrow> (uint l + uint r1) mod 2 ^ 8 = 0"
  by (simp add: word_uint_eq_iff uint_word_ariths)

section \<open>8-bit and 16-bit addition\<close>

lemma add8_result:
  "fst (add8 l r f c) = l + (if c \<and> IsSet f FlagCarry then r + 1 else r)"
  by (simp add: add8_def Let_def int_and_FF word_uint_eq_iff uint_word_of_int uint_word_ariths)

lemma add8_flags:
  "snd (add8 l r f c) =
     (let r1 = (if c \<and> IsSet f FlagCarry then r + 1 else r) in
      SetIf (SetIf (Clear (SetIf f (uint l + uint r1 > 0xFF) FlagCarry) FlagAddSub)
               ((uint l + uint r1) mod 2 ^ 8 = 0) FlagZero)
        (uint (l AND 0x0F) + uint (r1 AND 0x0F) > 0xF) FlagHalfCarry)"
  by (simp add: add8_def Let_def nibble_sum_gt int_and_FF)

lemma add16_result: "fst (add16 l r f) = l + r"
  by (simp add: add16_def Let_def int_and_FFFF word_uint_eq_iff uint_word_of_int uint_word_ariths)

lemma add16_flags:
  "snd (add16 l r f) =
      SetIf (Clear (SetIf f (uint l + uint r > 0xFFFF) FlagCarry) FlagAddSub)
        (uint (l AND 0xFFF) + uint (r AND 0xFFF) > 0xFFF) FlagHalfCarry"
  by (simp add: add16_def Let_def low12_sum_gt)

text \<open>
  The carry-in step \<open>right++\<close> is an 8-bit increment. Where it does not wrap, the
  incremented operand is \<open>right + 1\<close>, and so is its low nibble where that does not wrap.
\<close>

lemma uint_and_15: "uint ((x::8 word) AND 0x0F) = uint x mod 16"
proof -
  have "x AND mask 4 = take_bit 4 x" by (simp only: take_bit_eq_mask)
  then have "uint (x AND 0x0F) = take_bit 4 (uint x)"
    by (simp add: mask_eq_exp_minus_1 unsigned_take_bit_eq)
  then show ?thesis by (simp add: take_bit_eq_mod)
qed

lemma uint_succ_no_wrap: "(r::8 word) \<noteq> 0xFF \<Longrightarrow> uint (r + 1) = uint r + 1"
proof -
  assume "r \<noteq> 0xFF"
  then have "uint r \<noteq> 255" by (simp add: word_uint_eq_iff)
  moreover have "uint r < 256" using uint_bounded [of r] by simp
  ultimately show ?thesis by (simp add: uint_word_ariths)
qed

lemma nibble_succ_no_wrap:
  "(r::8 word) AND 0x0F \<noteq> 0x0F \<Longrightarrow> uint ((r + 1) AND 0x0F) = uint (r AND 0x0F) + 1"
proof -
  assume a: "r AND 0x0F \<noteq> 0x0F"
  then have n: "uint r mod 16 \<noteq> 15"
    using uint_and_15 [of r] by (auto simp add: word_uint_eq_iff)
  have "uint (r + 1) mod 16 = (uint r + 1) mod 16"
  proof -
    have "uint (r + 1) = (uint r + 1) mod 256" by (simp add: uint_word_ariths)
    moreover have "(uint r + 1) mod 256 mod 16 = (uint r + 1) mod 16"
      by (rule mod_mod_cancel) simp
    ultimately show ?thesis by simp
  qed
  moreover have "(uint r + 1) mod 16 = uint r mod 16 + 1"
  proof -
    have "0 \<le> uint r mod 16" and "uint r mod 16 < 16" by simp_all
    with n have small: "0 \<le> uint r mod 16 + 1" "uint r mod 16 + 1 < 16" by linarith+
    have "(uint r + 1) mod 16 = (uint r mod 16 + 1) mod 16"
      by (simp add: mod_add_left_eq)
    also have "\<dots> = uint r mod 16 + 1"
      using small by (rule mod_pos_pos_trivial)
    finally show ?thesis .
  qed
  ultimately show ?thesis by (simp add: uint_and_15)
qed

lemma sum_mod_256: "((a::int) + b mod 256) mod 256 = (a + b) mod 256"
  by (simp add: mod_add_right_eq)

lemma add8_without_carry_in:
  assumes "\<not> (c \<and> IsSet f FlagCarry)"
  shows "uint (fst (add8 l r f c)) = (uint l + uint r) mod 2 ^ 8"
    and "IsClear (snd (add8 l r f c)) FlagAddSub"
    and "IsSet (snd (add8 l r f c)) FlagZero \<longleftrightarrow> fst (add8 l r f c) = 0"
    and "IsSet (snd (add8 l r f c)) FlagCarry \<longleftrightarrow> uint l + uint r > 0xFF"
    and "IsSet (snd (add8 l r f c)) FlagHalfCarry \<longleftrightarrow>
           uint (l AND 0x0F) + uint (r AND 0x0F) > 0xF"
proof -
  from assms have e: "(c \<and> IsSet f FlagCarry) = False" by simp
  have fl: "snd (add8 l r f c) =
      SetIf (SetIf (Clear (SetIf f (uint l + uint r > 0xFF) FlagCarry) FlagAddSub)
               ((uint l + uint r) mod 2 ^ 8 = 0) FlagZero)
        (uint (l AND 0x0F) + uint (r AND 0x0F) > 0xF) FlagHalfCarry"
    unfolding add8_flags Let_def e by (simp only: if_False)
  have rs: "fst (add8 l r f c) = l + r"
    unfolding add8_result e by (simp only: if_False)
  show "uint (fst (add8 l r f c)) = (uint l + uint r) mod 2 ^ 8"
    unfolding rs by (simp add: uint_word_ariths)
  show "IsClear (snd (add8 l r f c)) FlagAddSub"
    unfolding fl by (simp add: flag_bits)
  show "IsSet (snd (add8 l r f c)) FlagZero \<longleftrightarrow> fst (add8 l r f c) = 0"
    unfolding fl rs by (simp add: flag_bits word8_sum_zero)
  show "IsSet (snd (add8 l r f c)) FlagCarry \<longleftrightarrow> uint l + uint r > 0xFF"
    unfolding fl by (simp add: flag_bits)
  show "IsSet (snd (add8 l r f c)) FlagHalfCarry \<longleftrightarrow>
           uint (l AND 0x0F) + uint (r AND 0x0F) > 0xF"
    unfolding fl by (simp add: flag_bits)
qed

lemma add8_with_carry_in:
  assumes "c \<and> IsSet f FlagCarry"
  shows "uint (fst (add8 l r f c)) = (uint l + uint r + 1) mod 2 ^ 8"
    and "IsClear (snd (add8 l r f c)) FlagAddSub"
    and "IsSet (snd (add8 l r f c)) FlagZero \<longleftrightarrow> fst (add8 l r f c) = 0"
    and "r \<noteq> 0xFF \<Longrightarrow> IsSet (snd (add8 l r f c)) FlagCarry \<longleftrightarrow> uint l + uint r + 1 > 0xFF"
    and "r AND 0x0F \<noteq> 0x0F \<Longrightarrow> IsSet (snd (add8 l r f c)) FlagHalfCarry \<longleftrightarrow>
           uint (l AND 0x0F) + uint ((r + 1) AND 0x0F) > 0xF"
proof -
  from assms have e: "(c \<and> IsSet f FlagCarry) = True" by simp
  have fl: "snd (add8 l r f c) =
      SetIf (SetIf (Clear (SetIf f (uint l + uint (r + 1) > 0xFF) FlagCarry) FlagAddSub)
               ((uint l + uint (r + 1)) mod 2 ^ 8 = 0) FlagZero)
        (uint (l AND 0x0F) + uint ((r + 1) AND 0x0F) > 0xF) FlagHalfCarry"
    unfolding add8_flags Let_def e by (simp only: if_True)
  have rs: "fst (add8 l r f c) = l + (r + 1)"
    unfolding add8_result e by (simp only: if_True)
  have m: "(uint l + uint (r + 1)) mod 2 ^ 8 = (uint l + uint r + 1) mod 2 ^ 8"
  proof -
    have "uint (r + 1) = (uint r + 1) mod 256" by (simp add: uint_word_ariths)
    then show ?thesis using sum_mod_256 [of "uint l" "uint r + 1"] by (simp add: add.assoc)
  qed
  have u: "uint (l + (r + 1)) = (uint l + uint (r + 1)) mod 2 ^ 8"
    by (simp add: uint_word_ariths)
  show "uint (fst (add8 l r f c)) = (uint l + uint r + 1) mod 2 ^ 8"
    unfolding rs u m ..
  show "IsClear (snd (add8 l r f c)) FlagAddSub"
    unfolding fl by (simp add: flag_bits)
  show "IsSet (snd (add8 l r f c)) FlagZero \<longleftrightarrow> fst (add8 l r f c) = 0"
    unfolding fl rs by (simp add: flag_bits word8_sum_zero)
  show "IsSet (snd (add8 l r f c)) FlagCarry \<longleftrightarrow> uint l + uint r + 1 > 0xFF" if "r \<noteq> 0xFF"
    unfolding fl using uint_succ_no_wrap [OF that] by (simp add: flag_bits add.assoc)
  show "IsSet (snd (add8 l r f c)) FlagHalfCarry \<longleftrightarrow>
           uint (l AND 0x0F) + uint ((r + 1) AND 0x0F) > 0xF" if "r AND 0x0F \<noteq> 0x0F"
    unfolding fl by (simp add: flag_bits)
qed

text \<open>
  C3, as amended. For every 8-bit \<open>l\<close> and \<open>r\<close>, every flags value \<open>f\<close> and every
  with-carry boolean \<open>c\<close>, let the carry-in be 1 when \<open>c\<close> holds and the carry flag is set
  in \<open>f\<close>, and 0 otherwise; \<open>right\<close> is incremented by the carry-in first, and the sum
  \<open>l + r + carry-in\<close> is taken over the integers. The value stored into \<open>left\<close> is the sum
  truncated to 8 bits; the add/subtract flag is cleared; the zero flag is set iff the
  stored result is zero. Unless the carry-in is 1 and \<open>r = 0xFF\<close>, the carry flag is set
  iff the sum exceeds \<open>0xFF\<close>. Unless the carry-in is 1 and the low four bits of \<open>r\<close> are
  \<open>0xF\<close>, the half-carry flag is set iff the low four bits of the original \<open>l\<close> plus the
  low four bits of the incremented \<open>right\<close> (those of \<open>r\<close> plus the carry-in) exceed
  \<open>0xF\<close>. Nothing is stated about the carry flag and the half-carry flag in the two
  excluded cases, where the increment wraps.
\<close>

theorem add8_correct:
  "(let carry_in = (c \<and> IsSet f FlagCarry);
        cin = (if carry_in then 1 else 0);
        r1 = (if carry_in then r + 1 else r);
        sum = uint l + uint r + cin in
     uint (fst (add8 l r f c)) = sum mod 2 ^ 8
   \<and> IsClear (snd (add8 l r f c)) FlagAddSub
   \<and> (IsSet (snd (add8 l r f c)) FlagZero \<longleftrightarrow> fst (add8 l r f c) = 0)
   \<and> (\<not> (carry_in \<and> r = 0xFF) \<longrightarrow>
        (IsSet (snd (add8 l r f c)) FlagCarry \<longleftrightarrow> sum > 0xFF))
   \<and> (\<not> (carry_in \<and> r AND 0x0F = 0x0F) \<longrightarrow>
        uint (r1 AND 0x0F) = uint (r AND 0x0F) + cin
        \<and> (IsSet (snd (add8 l r f c)) FlagHalfCarry \<longleftrightarrow>
             uint (l AND 0x0F) + uint (r1 AND 0x0F) > 0xF)))"
proof (cases "c \<and> IsSet f FlagCarry")
  case False
  note a = add8_without_carry_in [OF False, where l = l and r = r]
  from False have e: "(c \<and> IsSet f FlagCarry) = False" by simp
  show ?thesis
    unfolding Let_def e using a by (simp only: if_False simp_thms add_0_right)
next
  case True
  note a = add8_with_carry_in [OF True, where l = l and r = r]
  have n: "uint ((r + 1) AND 0x0F) = uint (r AND 0x0F) + 1" if "r AND 0x0F \<noteq> 0x0F"
    using that by (rule nibble_succ_no_wrap)
  have "uint (fst (add8 l r f c)) = (uint l + uint r + 1) mod 2 ^ 8"
    by (rule a(1))
  moreover have "IsClear (snd (add8 l r f c)) FlagAddSub"
    by (rule a(2))
  moreover have "IsSet (snd (add8 l r f c)) FlagZero \<longleftrightarrow> fst (add8 l r f c) = 0"
    by (rule a(3))
  moreover have "r \<noteq> 0xFF \<longrightarrow>
      (IsSet (snd (add8 l r f c)) FlagCarry \<longleftrightarrow> uint l + uint r + 1 > 0xFF)"
    using a(4) by blast
  moreover have "r AND 0x0F \<noteq> 0x0F \<longrightarrow>
      uint ((r + 1) AND 0x0F) = uint (r AND 0x0F) + 1
      \<and> (IsSet (snd (add8 l r f c)) FlagHalfCarry \<longleftrightarrow>
           uint (l AND 0x0F) + uint ((r + 1) AND 0x0F) > 0xF)"
    using a(5) n by blast
  moreover from True have e: "(c \<and> IsSet f FlagCarry) = True" by simp
  ultimately show ?thesis
    unfolding Let_def e by (simp only: if_True simp_thms)
qed

text \<open>
  The theorem at \<open>add8(0xFF, 1)\<close> without carry-in (result 0, carry and zero flags set),
  at \<open>add8(0x01, 1)\<close> with carry-in (result 3, carry flag clear) and at
  \<open>add8(0x0F, 0x00)\<close> with carry-in (half-carry flag set).
\<close>

theorem add8_correct_witness:
  "uint (fst (add8 0xFF 0x01 FlagEmpty False)) = 0
   \<and> IsSet (snd (add8 0xFF 0x01 FlagEmpty False)) FlagCarry
   \<and> IsSet (snd (add8 0xFF 0x01 FlagEmpty False)) FlagZero
   \<and> uint (fst (add8 0x01 0x01 FlagCarry True)) = 3
   \<and> \<not> IsSet (snd (add8 0x01 0x01 FlagCarry True)) FlagCarry
   \<and> IsSet (snd (add8 0x0F 0x00 FlagCarry True)) FlagHalfCarry"
  using add8_correct [where l = "0xFF" and r = "0x01" and f = FlagEmpty and c = False]
    add8_correct [where l = "0x01" and r = "0x01" and f = FlagCarry and c = True]
    add8_correct [where l = "0x0F" and r = "0x00" and f = FlagCarry and c = True]
  by (simp add: Let_def flag_bits uint_0_iff)

text \<open>
  C3 as stated fails where the carry-in changes the low nibble of \<open>right\<close>: with
  \<open>left = 0x0F\<close>, \<open>right = 0x00\<close>, the carry flag set and with-carry true, the low nibbles
  of the original operands sum to \<open>0xF\<close>, which does not exceed \<open>0xF\<close>, yet the half-carry
  flag is set, because \<open>right\<close> has become \<open>0x01\<close> before the test.
\<close>

theorem add8_half_carry_counterexample:
  "\<not> (IsSet (snd (add8 0x0F 0x00 FlagCarry True)) FlagHalfCarry \<longleftrightarrow>
        uint ((0x0F :: 8 word) AND 0x0F) + uint ((0x00 :: 8 word) AND 0x0F) > 0xF)"
  by (simp add: add8_flags flag_bits Let_def)

text \<open>
  C4. For every 16-bit \<open>l\<close> and \<open>r\<close> and every flags value \<open>f\<close>, \<open>add16\<close> stores the
  sum truncated to 16 bits into \<open>left\<close>, sets the carry flag iff the integer sum exceeds
  \<open>0xFFFF\<close>, sets the half-carry flag iff the low 12 bits of \<open>l\<close> plus the low 12 bits
  of \<open>r\<close> exceed \<open>0xFFF\<close>, clears the add/subtract flag and leaves the zero flag as it
  was.
\<close>

theorem add16_correct:
  "uint (fst (add16 l r f)) = (uint l + uint r) mod 2 ^ 16
   \<and> (IsSet (snd (add16 l r f)) FlagCarry \<longleftrightarrow> uint l + uint r > 0xFFFF)
   \<and> (IsSet (snd (add16 l r f)) FlagHalfCarry \<longleftrightarrow>
        uint (l AND 0xFFF) + uint (r AND 0xFFF) > 0xFFF)
   \<and> IsClear (snd (add16 l r f)) FlagAddSub
   \<and> (IsSet (snd (add16 l r f)) FlagZero \<longleftrightarrow> IsSet f FlagZero)"
proof -
  have res: "uint (fst (add16 l r f)) = (uint l + uint r) mod 2 ^ 16"
    by (simp add: add16_result uint_word_ariths)
  show ?thesis
    unfolding add16_flags by (simp add: res flag_bits)
qed

text \<open>The theorem at \<open>add16(0xFFFF, 0x0002)\<close>: the result is \<open>0x0001\<close> and the carry flag is set.\<close>

theorem add16_correct_witness:
  "uint (fst (add16 0xFFFF 0x0002 FlagEmpty)) = 1
   \<and> IsSet (snd (add16 0xFFFF 0x0002 FlagEmpty)) FlagCarry
   \<and> \<not> IsSet (snd (add16 0xFFFF 0x0002 FlagEmpty)) FlagZero"
  using add16_correct [where l = "0xFFFF" and r = "0x0002" and f = FlagEmpty]
  by (simp add: flag_bits)

text \<open>
  C10. For every 8-bit \<open>l\<close> and every flags value \<open>f\<close> with the carry flag set, \<open>add8\<close>
  with with-carry true and \<open>right = 0xFF\<close> leaves \<open>left\<close> unchanged and clears the carry
  flag: the carry-in increment wraps \<open>right\<close> from \<open>0xFF\<close> to \<open>0x00\<close> before the sum is
  taken.
\<close>

theorem add8_carry_in_wraps:
  "IsSet f FlagCarry \<Longrightarrow>
     fst (add8 l 0xFF f True) = l \<and> IsClear (snd (add8 l 0xFF f True)) FlagCarry"
proof -
  assume c: "IsSet f FlagCarry"
  have "uint l \<le> 0xFF" using uint_bounded [of l] by simp
  then show ?thesis using c
    by (simp add: add8_flags add8_result flag_bits Let_def)
qed

theorem add8_carry_in_wraps_witness:
  "IsSet FlagCarry FlagCarry \<and> fst (add8 0x2A 0xFF FlagCarry True) = 0x2A
     \<and> IsClear (snd (add8 0x2A 0xFF FlagCarry True)) FlagCarry"
proof -
  have h: "IsSet FlagCarry FlagCarry" by (simp add: flag_bits)
  show ?thesis using h add8_carry_in_wraps [OF h, of "0x2A"] by simp
qed

section \<open>The low nibble of the flags\<close>

lemma low_Set: "f AND 0x0F = 0 \<Longrightarrow> g AND 0x0F = 0 \<Longrightarrow> Set f g AND 0x0F = (0::8 word)"
  by (simp add: Set_def bit.conj_disj_distrib2)

lemma low_Clear: "f AND 0x0F = 0 \<Longrightarrow> Clear f g AND 0x0F = (0::8 word)"
proof -
  assume a: "f AND 0x0F = 0"
  have "(f AND NOT g) AND 0x0F = (f AND 0x0F) AND NOT g"
    by (simp add: and.assoc and.commute and.left_commute)
  then show ?thesis by (simp add: Clear_def a)
qed

lemma low_SetIf:
  "f AND 0x0F = 0 \<Longrightarrow> g AND 0x0F = 0 \<Longrightarrow> SetIf f c g AND 0x0F = (0::8 word)"
  by (simp add: SetIf_def low_Set low_Clear)

lemma low_flags:
  "FlagCarry AND 0x0F = 0" "FlagHalfCarry AND 0x0F = 0"
  "FlagAddSub AND 0x0F = 0" "FlagZero AND 0x0F = 0"
  by (simp_all add: FlagCarry_def FlagHalfCarry_def FlagAddSub_def FlagZero_def)

text \<open>
  C8. The four named flags are \<open>0x10\<close>, \<open>0x20\<close>, \<open>0x40\<close> and \<open>0x80\<close>, all in the high
  nibble, and the empty flags value (the zero value a new CPU state starts with) has its
  low nibble clear. Every instruction primitive that takes the flags register (\<open>add8\<close>,
  \<open>add16\<close>, \<open>and\<close>, \<open>bit\<close>), applied to a flags value whose low four bits are clear,
  yields a flags value whose low four bits are clear. The primitives \<open>push\<close>, \<open>pop\<close> and
  \<open>call\<close> have no flags parameter: they neither read nor write the flags register.
\<close>

theorem flags_low_nibble_clear:
  "FlagCarry = 0x10 \<and> FlagHalfCarry = 0x20 \<and> FlagAddSub = 0x40 \<and> FlagZero = 0x80
   \<and> FlagEmpty AND 0x0F = 0
   \<and> FlagCarry AND 0x0F = 0 \<and> FlagHalfCarry AND 0x0F = 0
   \<and> FlagAddSub AND 0x0F = 0 \<and> FlagZero AND 0x0F = 0
   \<and> (f AND 0x0F = 0 \<longrightarrow>
        snd (add8 l r f c) AND 0x0F = 0
      \<and> snd (add16 l16 r16 f) AND 0x0F = 0
      \<and> snd (and_instr l r f) AND 0x0F = 0
      \<and> bit_instr b v f AND 0x0F = 0)"
proof -
  have named: "FlagCarry = 0x10 \<and> FlagHalfCarry = 0x20 \<and> FlagAddSub = 0x40
      \<and> FlagZero = 0x80 \<and> FlagEmpty AND 0x0F = 0"
    by (simp add: FlagCarry_def FlagHalfCarry_def FlagAddSub_def FlagZero_def FlagEmpty_def)
  have prims: "snd (add8 l r f c) AND 0x0F = 0 \<and> snd (add16 l16 r16 f) AND 0x0F = 0
      \<and> snd (and_instr l r f) AND 0x0F = 0 \<and> bit_instr b v f AND 0x0F = 0"
    if a: "f AND 0x0F = 0"
  proof -
    have "snd (add8 l r f c) AND 0x0F = 0"
      by (simp add: add8_def Let_def low_SetIf low_Clear low_flags a)
    moreover have "snd (add16 l16 r16 f) AND 0x0F = 0"
      by (simp add: add16_def Let_def low_SetIf low_Clear low_flags a)
    moreover have "snd (and_instr l r f) AND 0x0F = 0"
      by (simp add: and_instr_def Let_def low_SetIf low_Set low_Clear low_flags a)
    moreover have "bit_instr b v f AND 0x0F = 0"
      by (simp add: bit_instr_def low_SetIf low_flags a)
    ultimately show ?thesis by simp
  qed
  show ?thesis using named prims low_flags by simp
qed

theorem flags_low_nibble_clear_witness:
  "FlagZero AND 0x0F = 0
   \<and> snd (add8 0x0A 0x0A FlagZero False) AND 0x0F = 0
   \<and> snd (add16 0xFFFF 0x0002 FlagZero) AND 0x0F = 0
   \<and> snd (and_instr 0x0A 0x0A FlagZero) AND 0x0F = 0
   \<and> bit_instr 6 0xBF FlagZero AND 0x0F = 0"
proof -
  have h: "FlagZero AND 0x0F = 0" by (simp add: FlagZero_def)
  show ?thesis
    using h flags_low_nibble_clear [where f = FlagZero and l = "0x0A" and r = "0x0A" and c = False
        and ?l16.0 = "0xFFFF" and ?r16.0 = "0x0002" and b = 6 and v = "0xBF"]
    by simp
qed

section \<open>The RAM operations\<close>

lemma go_int_id: "- (2 ^ 63) \<le> x \<Longrightarrow> x < 2 ^ 63 \<Longrightarrow> go_int x = x"
  by (simp add: go_int_def)

lemma go_int_succ: "0 \<le> addr \<Longrightarrow> addr < 2 ^ 63 - 1 \<Longrightarrow> go_int (addr + 1) = addr + 1"
  by (intro go_int_id) simp_all

text \<open>
  At an address that is not negative (and below the largest \<open>int\<close>), each operation either
  reports \<open>ErrAddressOutOfRange\<close> and leaves the memory as it was, or reads or writes
  exactly the bytes asked for.
\<close>

lemma GetByte_nonneg:
  "0 \<le> addr \<Longrightarrow>
   GetByte r addr =
     (if addr < int (length (data r)) then Return (data r ! nat addr, None)
      else Return (0, Some ErrAddressOutOfRange))"
  by (simp add: GetByte_def in_bounds_def)

lemma SetByte_nonneg:
  "0 \<le> addr \<Longrightarrow>
   SetByte r addr val =
     (if addr < int (length (data r)) then (r\<lparr> data := (data r)[nat addr := val] \<rparr>, Return None)
      else (r, Return (Some ErrAddressOutOfRange)))"
  by (simp add: SetByte_def in_bounds_def)

lemma GetWord_nonneg:
  "0 \<le> addr \<Longrightarrow> addr < 2 ^ 63 - 1 \<Longrightarrow>
   GetWord r addr =
     (if addr + 1 < int (length (data r))
      then Return (push_bit 8 (ucast (data r ! nat addr)) OR ucast (data r ! (nat addr + 1)), None)
      else Return (0, Some ErrAddressOutOfRange))"
  by (simp add: GetWord_def go_int_succ in_bounds_def nat_add_distrib)

lemma SetWord_nonneg:
  "0 \<le> addr \<Longrightarrow> addr < 2 ^ 63 - 1 \<Longrightarrow>
   SetWord r addr val =
     (if addr + 1 < int (length (data r))
      then (r\<lparr> data := (data r)[nat addr := ucast (drop_bit 8 (val AND 0xFF00)),
                                   nat addr + 1 := ucast (val AND 0x00FF)] \<rparr>, Return None)
      else (r, Return (Some ErrAddressOutOfRange)))"
  by (simp add: SetWord_def go_int_succ in_bounds_def nat_add_distrib Let_def)

text \<open>
  C2 fails on the code at a negative address. The four operations compare the address with
  the length only from above, so \<open>-1\<close> passes the range check and the slice is indexed at
  \<open>-1\<close>: on a RAM of \<open>0xFF\<close> bytes, \<open>GetByte\<close>, \<open>GetWord\<close>, \<open>SetByte\<close> and \<open>SetWord\<close> at
  address \<open>-1\<close> all panic instead of returning \<open>ErrAddressOutOfRange\<close> (the memory is left
  as it was).
\<close>

theorem ram_negative_address_panics:
  "GetByte (NewRAM 0xFF) (- 1) = Panic
   \<and> GetWord (NewRAM 0xFF) (- 1) = Panic
   \<and> SetByte (NewRAM 0xFF) (- 1) 0x2A = (NewRAM 0xFF, Panic)
   \<and> SetWord (NewRAM 0xFF) (- 1) 0xBEEF = (NewRAM 0xFF, Panic)"
  by (simp add: GetByte_def GetWord_def SetByte_def SetWord_def NewRAM_def in_bounds_def go_int_def)

section \<open>The stack\<close>

lemma uint16_range: "0 \<le> uint (sp :: 16 word)" "uint (sp :: 16 word) < 2 ^ 63 - 1"
proof -
  show "0 \<le> uint sp" by simp
  have "uint sp < 2 ^ 16" using uint_bounded [of sp] by simp
  then show "uint sp < 2 ^ 63 - 1" by simp
qed

lemma GetWord_uint:
  "GetWord mem (uint (sp :: 16 word)) =
     (if uint sp + 1 \<ge> int (length (data mem)) then Return (0, Some ErrAddressOutOfRange)
      else Return (push_bit 8 (ucast (data mem ! unat sp)) OR ucast (data mem ! (unat sp + 1)),
             None))"
  by (simp add: GetWord_nonneg [OF uint16_range])

lemma SetWord_uint:
  "SetWord mem (uint (sp :: 16 word)) val =
     (if uint sp + 1 \<ge> int (length (data mem)) then (mem, Return (Some ErrAddressOutOfRange))
      else (mem\<lparr> data := (data mem)[unat sp := ucast (drop_bit 8 (val AND 0xFF00)),
                                      unat sp + 1 := ucast (val AND 0x00FF)] \<rparr>, Return None))"
  by (simp add: SetWord_nonneg [OF uint16_range])

text \<open>The two bytes \<open>SetWord\<close> stores are put together again by \<open>GetWord\<close>.\<close>

lemma word16_bytes:
  "push_bit 8 (ucast (ucast (drop_bit 8 v AND 255) :: 8 word))
     OR ucast (ucast (v AND 255) :: 8 word) = (v :: 16 word)"
proof -
  have m: "(255 :: 16 word) = mask 8" by (simp add: mask_eq_exp_minus_1)
  show ?thesis
    unfolding m
    by (rule bit_word_eqI) (auto simp add: bit_simps)
qed

lemma push_cases:
  "push val sp mem =
     (if sp \<le> 2 then (sp, mem, Return (Some ErrStackOverflow))
      else if uint (sp - 2) + 1 \<ge> int (length (data mem))
        then (sp - 2, mem, Return (Some ErrAddressOutOfRange))
      else (sp - 2,
            mem\<lparr> data := (data mem)[unat (sp - 2) := ucast (drop_bit 8 (val AND 0xFF00)),
                                        unat (sp - 2) + 1 := ucast (val AND 0x00FF)] \<rparr>,
            Return None))"
  unfolding push_def Let_def SetWord_uint [of mem "sp - 2" val]
  by (simp only: if_distrib [of "Pair (sp - 2)"] split: if_split)

lemma pop_after_push:
  assumes "snd (snd (push v sp mem)) = Return None"
  shows "pop (fst (push v sp mem)) (fst (snd (push v sp mem))) = (sp, Return (v, None))"
proof -
  let ?a = "unat (sp - 2)"
  have big: "\<not> sp \<le> 2"
  proof
    assume "sp \<le> 2"
    then have "snd (snd (push v sp mem)) = Return (Some ErrStackOverflow)"
      by (simp add: push_def)
    with assms show False by simp
  qed
  have rng: "\<not> uint (sp - 2) + 1 \<ge> int (length (data mem))"
  proof
    assume "uint (sp - 2) + 1 \<ge> int (length (data mem))"
    then have "snd (snd (push v sp mem)) = Return (Some ErrAddressOutOfRange)"
      using big by (simp add: push_cases)
    with assms show False by simp
  qed
  have "int ?a = uint (sp - 2)" by simp
  with rng have len: "?a + 1 < length (data mem)" by linarith
  have st: "fst (push v sp mem) = sp - 2"
    "data (fst (snd (push v sp mem))) =
       (data mem)[?a := ucast (drop_bit 8 (v AND 0xFF00)), ?a + 1 := ucast (v AND 0x00FF)]"
    using big rng by (simp_all add: push_cases)
  show ?thesis
    unfolding pop_def GetWord_uint st using rng len
    by (simp add: word16_bytes)
qed

text \<open>
  C1, as amended. For every value, stack pointer and memory, \<open>push\<close> fails with
  \<open>ErrStackOverflow\<close> iff \<open>SP \<le> 2\<close> at call time, and every such failure leaves the stack
  pointer (and the memory) unchanged.
\<close>

theorem push_stack_overflow:
  "(snd (snd (push val sp mem)) = Return (Some ErrStackOverflow) \<longleftrightarrow> sp \<le> 2)
   \<and> (snd (snd (push val sp mem)) = Return (Some ErrStackOverflow) \<longrightarrow>
        fst (push val sp mem) = sp \<and> fst (snd (push val sp mem)) = mem)"
  by (simp add: push_cases)

text \<open>The theorem at \<open>SP = 0\<close> on a memory of \<open>0xFF\<close> bytes.\<close>

theorem push_stack_overflow_witness:
  "snd (snd (push 0xBEEF 0x00 (NewRAM 0xFF))) = Return (Some ErrStackOverflow)
   \<and> fst (push 0xBEEF 0x00 (NewRAM 0xFF)) = 0x00
   \<and> fst (snd (push 0xBEEF 0x00 (NewRAM 0xFF))) = NewRAM 0xFF"
proof -
  have h: "snd (snd (push 0xBEEF 0x00 (NewRAM 0xFF))) = Return (Some ErrStackOverflow)"
    by (simp add: push_def)
  show ?thesis
    using h push_stack_overflow [where val = "0xBEEF" and sp = "0x00" and mem = "NewRAM 0xFF"]
    by simp
qed

text \<open>
  C1 as stated fails for the other failure of \<open>push\<close>: with \<open>SP = 0x1000\<close> on a memory of
  \<open>0xFF\<close> bytes the stack pointer is first decremented to \<open>0x0FFE\<close>, then the write there
  is out of range; \<open>push\<close> returns \<open>ErrAddressOutOfRange\<close> and the stack pointer stays
  at \<open>0x0FFE\<close>.
\<close>

theorem push_failure_moves_sp:
  "snd (snd (push 0xBEEF 0x1000 (NewRAM 0xFF))) = Return (Some ErrAddressOutOfRange)
   \<and> fst (push 0xBEEF 0x1000 (NewRAM 0xFF)) = 0x0FFE
   \<and> fst (push 0xBEEF 0x1000 (NewRAM 0xFF)) \<noteq> 0x1000"
  by (simp add: push_cases NewRAM_def)

text \<open>
  C5. For every stack pointer and memory, \<open>pop\<close> reads a word at the current \<open>SP\<close>. When
  that read is out of range (\<open>SP + 1\<close> is not below the size, so \<open>GetWord\<close> returns
  \<open>ErrAddressOutOfRange\<close>), \<open>pop\<close> fails with \<open>ErrStackUnderflow\<close>, leaves \<open>SP\<close> unchanged and
  returns 0. Otherwise it returns the word read (high byte first) without an error and
  increments \<open>SP\<close> by 2. So \<open>pop\<close> fails with \<open>ErrStackUnderflow\<close> iff the word read at
  \<open>SP\<close> is out of range.
\<close>

theorem pop_correct:
  "(uint sp + 1 \<ge> int (length (data mem)) \<longrightarrow>
      GetWord mem (uint sp) = Return (0, Some ErrAddressOutOfRange)
      \<and> pop sp mem = (sp, Return (0, Some ErrStackUnderflow)))
   \<and> (uint sp + 1 < int (length (data mem)) \<longrightarrow>
      (\<exists>w. GetWord mem (uint sp) = Return (w, None)
           \<and> w = push_bit 8 (ucast (data mem ! unat sp)) OR ucast (data mem ! (unat sp + 1))
           \<and> pop sp mem = (sp + 2, Return (w, None))))
   \<and> ((\<exists>w. snd (pop sp mem) = Return (w, Some ErrStackUnderflow)) \<longleftrightarrow>
        uint sp + 1 \<ge> int (length (data mem)))"
  by (simp add: pop_def GetWord_uint)

text \<open>
  The theorem on a memory of \<open>0xFF\<close> bytes: at \<open>SP = 0x00FF\<close> the stack underflows, at
  \<open>SP = 0x00FD\<close> the word is read and \<open>SP\<close> becomes \<open>0x00FF\<close>.
\<close>

theorem pop_correct_witness:
  "pop 0x00FF (NewRAM 0xFF) = (0x00FF, Return (0, Some ErrStackUnderflow))
   \<and> pop 0x00FD (NewRAM 0xFF) = (0x00FF, Return (0, None))"
proof -
  have h1: "uint (0x00FF :: 16 word) + 1 \<ge> int (length (data (NewRAM 0xFF)))"
    by (simp add: NewRAM_def)
  have h2: "uint (0x00FD :: 16 word) + 1 < int (length (data (NewRAM 0xFF)))"
    by (simp add: NewRAM_def)
  show ?thesis
    using h1 h2 pop_correct [where sp = "0x00FF" and mem = "NewRAM 0xFF"]
      pop_correct [where sp = "0x00FD" and mem = "NewRAM 0xFF"]
    by (simp add: NewRAM_def)
qed

text \<open>
  C6. For every address, \<open>PC\<close>, \<open>SP\<close> and memory, \<open>call\<close> pushes the current \<open>PC\<close> (the
  push never panics). If the push fails with an error \<open>e\<close>, \<open>call\<close> returns \<open>e\<close> itself and
  \<open>PC\<close> keeps its value. If the push succeeds, \<open>call\<close> succeeds with \<open>PC\<close> set to the
  address, and a \<open>pop\<close> on the resulting stack pointer and memory returns the old \<open>PC\<close>
  (and restores \<open>SP\<close>).
\<close>

theorem call_correct:
  "snd (snd (push pc sp mem)) \<noteq> Panic
   \<and> (snd (snd (push pc sp mem)) = Return (Some e) \<longrightarrow>
        call addr pc sp mem =
          (pc, fst (push pc sp mem), fst (snd (push pc sp mem)), Return (Some e)))
   \<and> (snd (snd (push pc sp mem)) = Return None \<longrightarrow>
        call addr pc sp mem =
          (addr, fst (push pc sp mem), fst (snd (push pc sp mem)), Return None)
        \<and> pop (fst (push pc sp mem)) (fst (snd (push pc sp mem))) = (sp, Return (pc, None)))"
proof -
  have a: "snd (snd (push pc sp mem)) \<noteq> Panic" by (simp add: push_cases)
  have b: "call addr pc sp mem =
      (pc, fst (push pc sp mem), fst (snd (push pc sp mem)), Return (Some e))"
    if "snd (snd (push pc sp mem)) = Return (Some e)"
    using that by (cases "push pc sp mem") (simp add: call_def)
  have c: "call addr pc sp mem =
      (addr, fst (push pc sp mem), fst (snd (push pc sp mem)), Return None)"
    if "snd (snd (push pc sp mem)) = Return None"
    using that by (cases "push pc sp mem") (simp add: call_def)
  show ?thesis using a b c pop_after_push [of pc sp mem] by blast
qed

text \<open>
  The theorem on a memory of \<open>0xFF\<close> bytes with \<open>PC = 0xFEED\<close> and address \<open>0xBEEF\<close>: at
  \<open>SP = 0\<close> the stack overflow is returned and \<open>PC\<close> stays; at \<open>SP = 0x00FF\<close> the call
  succeeds, \<open>PC\<close> is \<open>0xBEEF\<close> and \<open>0xFEED\<close> is popped.
\<close>

theorem call_correct_witness:
  "call 0xBEEF 0xFEED 0x0000 (NewRAM 0xFF)
     = (0xFEED, 0x0000, NewRAM 0xFF, Return (Some ErrStackOverflow))
   \<and> fst (call 0xBEEF 0xFEED 0x00FF (NewRAM 0xFF)) = 0xBEEF
   \<and> pop (fst (push 0xFEED 0x00FF (NewRAM 0xFF))) (fst (snd (push 0xFEED 0x00FF (NewRAM 0xFF))))
       = (0x00FF, Return (0xFEED, None))"
proof -
  have h1: "snd (snd (push 0xFEED 0x0000 (NewRAM 0xFF))) = Return (Some ErrStackOverflow)"
    by (simp add: push_def)
  have h2: "snd (snd (push 0xFEED 0x00FF (NewRAM 0xFF))) = Return None"
    by (simp add: push_cases NewRAM_def)
  show ?thesis
    using h1 h2
      call_correct [where pc = "0xFEED" and sp = "0x0000" and mem = "NewRAM 0xFF"
        and e = ErrStackOverflow and addr = "0xBEEF"]
      call_correct [where pc = "0xFEED" and sp = "0x00FF" and mem = "NewRAM 0xFF"
        and e = ErrStackOverflow and addr = "0xBEEF"]
    by (simp add: push_def)
qed

text \<open>
  C7. For every 16-bit value \<open>v\<close> and every starting \<open>SP\<close> and memory for which \<open>push\<close>
  succeeds, \<open>pop\<close> after \<open>push\<close> returns \<open>v\<close> without an error and restores \<open>SP\<close> to its
  original value.
\<close>

theorem push_pop_roundtrip:
  "snd (snd (push v sp mem)) = Return None \<Longrightarrow>
     pop (fst (push v sp mem)) (fst (snd (push v sp mem))) = (sp, Return (v, None))"
  by (rule pop_after_push)

theorem push_pop_roundtrip_witness:
  "snd (snd (push 0xBEEF 0x00FF (NewRAM 0xFF))) = Return None
   \<and> pop (fst (push 0xBEEF 0x00FF (NewRAM 0xFF))) (fst (snd (push 0xBEEF 0x00FF (NewRAM 0xFF))))
       = (0x00FF, Return (0xBEEF, None))"
proof -
  have h: "snd (snd (push 0xBEEF 0x00FF (NewRAM 0xFF))) = Return None"
    by (simp add: push_cases NewRAM_def)
  show ?thesis using h push_pop_roundtrip [OF h] by simp
qed

section \<open>The header parser\<close>

text \<open>The checksum loop is a running subtraction over the bytes \<open>0x34\<close> to \<open>0x4C\<close>.\<close>

lemma checksum_loop_foldl:
  "x \<le> 0x4D \<Longrightarrow> 0x4D \<le> length inp \<Longrightarrow>
     checksum_loop inp x acc = foldl (\<lambda>a b. a - b - 1) acc (subslice inp x 0x4D)"
proof (induction inp x acc rule: checksum_loop.induct)
  case (1 inp x acc)
  show ?case
  proof (cases "x \<le> 0x4C")
    case True
    then have lt: "x < length inp" using 1 by simp
    have "subslice inp x 0x4D = inp ! x # subslice inp (x + 1) 0x4D"
    proof -
      have "0x4D - x = Suc (0x4D - (x + 1))" using True by simp
      then show ?thesis
        unfolding subslice_def using lt
        by (simp add: Cons_nth_drop_Suc [symmetric] del: drop_Suc)
    qed
    moreover have "checksum_loop inp (x + 1) (acc - inp ! x - 1)
        = foldl (\<lambda>a b. a - b - 1) (acc - inp ! x - 1) (subslice inp (x + 1) 0x4D)"
      using 1 True by simp
    ultimately show ?thesis
      using True by (simp add: checksum_loop.simps [of inp x acc])
  next
    case False
    then have "checksum_loop inp x acc = acc"
      by (simp add: checksum_loop.simps [of inp x acc])
    moreover from False 1 have "x = 0x4D" by simp
    ultimately show ?thesis by (simp add: subslice_def)
  qed
qed

lemma header_full:
  "(h :: CartridgeHeader)\<lparr> Title := a, ManufacturerCode := b, CGBSupport := c,
       NewLicenseeCode := d, SGBSupport := e, Type := f, ROMSize := g, RAMSize := i,
       Japanese := j, OldLicenseeCode := k, VersionNumber := l, GlobalChecksum := m \<rparr>
   = \<lparr> Title = a, ManufacturerCode = b, CGBSupport = c, NewLicenseeCode = d,
       SGBSupport = e, Type = f, ROMSize = g, RAMSize = i, Japanese = j,
       OldLicenseeCode = k, VersionNumber = l, GlobalChecksum = m \<rparr>"
  by (cases h) simp

text \<open>
  C9. For every input slice and every output structure: when the slice is not exactly
  \<open>0x50\<close> bytes long the parser returns \<open>ErrHeaderLengthInvalid\<close> with the structure
  untouched, and it returns that error in no other case. For a slice of \<open>0x50\<close> bytes every
  field of the structure is set from the input (nothing of the old contents is left); the
  checksum is the running subtraction \<open>acc - byte - 1\<close>, from 0, over the bytes \<open>0x34\<close> to
  \<open>0x4C\<close>; the parser returns \<open>ErrHeaderChecksumInvalid\<close> iff that value differs from the
  byte at \<open>0x4D\<close>, and no error iff it is equal.
\<close>

theorem ParseHeader_correct:
  "(length inp \<noteq> 0x50 \<longrightarrow> ParseHeader inp header = (header, Some ErrHeaderLengthInvalid))
   \<and> (snd (ParseHeader inp header) = Some ErrHeaderLengthInvalid \<longleftrightarrow> length inp \<noteq> 0x50)
   \<and> (length inp = 0x50 \<longrightarrow>
        fst (ParseHeader inp header) =
          \<lparr> Title = TrimRight_NUL (subslice inp 0x34 0x3F),
            ManufacturerCode = TrimRight_NUL (subslice inp 0x3F 0x42),
            CGBSupport = (if inp ! 0x43 = 0x80 then CgbSupported
                          else if inp ! 0x43 = 0xC0 then CgbRequired else CgbNotSupported),
            NewLicenseeCode = subslice inp 0x44 0x45,
            SGBSupport = (inp ! 0x46 = 0x03),
            Type = inp ! 0x47,
            ROMSize = getROMSize (inp ! 0x48),
            RAMSize = getRAMSize (inp ! 0x49),
            Japanese = (inp ! 0x4A = 0x00),
            OldLicenseeCode = inp ! 0x4B,
            VersionNumber = inp ! 0x4C,
            GlobalChecksum = BigEndian_Uint16 (subslice inp 0x4E 0x50) \<rparr>
        \<and> (snd (ParseHeader inp header) = Some ErrHeaderChecksumInvalid \<longleftrightarrow>
             foldl (\<lambda>acc b. acc - b - 1) 0 (subslice inp 0x34 0x4D) \<noteq> inp ! 0x4D)
        \<and> (snd (ParseHeader inp header) = None \<longleftrightarrow>
             foldl (\<lambda>acc b. acc - b - 1) 0 (subslice inp 0x34 0x4D) = inp ! 0x4D))"
proof -
  have short: "ParseHeader inp header = (header, Some ErrHeaderLengthInvalid)"
    if "length inp \<noteq> 0x50"
    using that by (simp add: ParseHeader_def)
  have sum: "checksum_loop inp 0x34 0 = foldl (\<lambda>acc b. acc - b - 1) 0 (subslice inp 0x34 0x4D)"
    if "length inp = 0x50"
    using that by (simp add: checksum_loop_foldl)
  have full: "fst (ParseHeader inp header) =
          \<lparr> Title = TrimRight_NUL (subslice inp 0x34 0x3F),
            ManufacturerCode = TrimRight_NUL (subslice inp 0x3F 0x42),
            CGBSupport = (if inp ! 0x43 = 0x80 then CgbSupported
                          else if inp ! 0x43 = 0xC0 then CgbRequired else CgbNotSupported),
            NewLicenseeCode = subslice inp 0x44 0x45,
            SGBSupport = (inp ! 0x46 = 0x03),
            Type = inp ! 0x47,
            ROMSize = getROMSize (inp ! 0x48),
            RAMSize = getRAMSize (inp ! 0x49),
            Japanese = (inp ! 0x4A = 0x00),
            OldLicenseeCode = inp ! 0x4B,
            VersionNumber = inp ! 0x4C,
            GlobalChecksum = BigEndian_Uint16 (subslice inp 0x4E 0x50) \<rparr>"
    if "length inp = 0x50"
    using that unfolding ParseHeader_def Let_def header_full by simp
  have err: "snd (ParseHeader inp header) =
      (if inp ! 0x4D \<noteq> foldl (\<lambda>acc b. acc - b - 1) 0 (subslice inp 0x34 0x4D)
       then Some ErrHeaderChecksumInvalid else None)"
    if "length inp = 0x50"
    using that sum unfolding ParseHeader_def Let_def by simp
  show ?thesis
  proof (cases "length inp = 0x50")
    case True
    then show ?thesis using full err by auto
  next
    case False
    then show ?thesis using short by simp
  qed
qed

text \<open>
  The theorem at three inputs: the empty slice (wrong length, the structure is returned as
  it was); \<open>0x4D\<close> zero bytes followed by the checksum byte \<open>0xE7\<close> and two more zero bytes
  (25 times \<open>- 0 - 1\<close> from 0 is \<open>0xE7\<close>: no error); and \<open>0x50\<close> zero bytes (the checksum
  byte 0 is wrong).
\<close>

theorem ParseHeader_correct_witness:
  "ParseHeader [] zero_CartridgeHeader = (zero_CartridgeHeader, Some ErrHeaderLengthInvalid)
   \<and> snd (ParseHeader (replicate 0x4D 0 @ [0xE7, 0, 0]) zero_CartridgeHeader) = None
   \<and> Japanese (fst (ParseHeader (replicate 0x4D 0 @ [0xE7, 0, 0]) zero_CartridgeHeader))
   \<and> snd (ParseHeader (replicate 0x50 0) zero_CartridgeHeader) = Some ErrHeaderChecksumInvalid"
proof -
  have l1: "length ([] :: 8 word list) \<noteq> 0x50" by simp
  have l2: "length (replicate 0x4D 0 @ [0xE7, 0, 0 :: 8 word]) = 0x50" by simp
  have l3: "length (replicate 0x50 (0 :: 8 word)) = 0x50" by simp
  have s2: "foldl (\<lambda>acc b. acc - b - 1) 0
      (subslice (replicate 0x4D 0 @ [0xE7, 0, 0 :: 8 word]) 0x34 0x4D) = 0xE7"
    by code_simp
  have s3: "foldl (\<lambda>acc b. acc - b - 1) 0
      (subslice (replicate 0x50 (0 :: 8 word)) 0x34 0x4D) = 0xE7"
    by code_simp
  have n2: "(replicate 0x4D 0 @ [0xE7, 0, 0 :: 8 word]) ! 0x4D = 0xE7"
       "(replicate 0x4D 0 @ [0xE7, 0, 0 :: 8 word]) ! 0x4A = 0"
    by (simp_all add: nth_append)
  show ?thesis
    using l1 l2 l3 ParseHeader_correct [where inp = "[]" and header = zero_CartridgeHeader]
      ParseHeader_correct [where inp = "replicate 0x4D 0 @ [0xE7, 0, 0]"
        and header = zero_CartridgeHeader]
      ParseHeader_correct [where inp = "replicate 0x50 0" and header = zero_CartridgeHeader]
    by (simp add: s2 s3 n2)
qed

end
